theory Spec2Isabelle
  imports Complex_Main
begin

section \<open>Keyword stemming service: the model of \<open>app.py\<close>\<close>

text \<open>
  The service loads three external models at startup, records its progress in the
  process-wide dictionary \<open>_progress\<close>, and answers \<open>/status\<close>, \<open>/health\<close> and
  \<open>/extract\<close>. The external libraries are black boxes: a loaded object is modelled by
  the one method the service calls on it, a constructor by a function that either
  raises (\<open>Inl\<close> of the exception) or returns the object (\<open>Inr\<close>).
  Scores are Python floats on which the service does no arithmetic; they are taken
  as reals.
\<close>

subsection \<open>Configuration (lines 16--17)\<close>

record config =
  MODEL_NAME :: string
  TOP_N_MAX :: int

definition default_config :: config where
  "default_config = \<lparr>MODEL_NAME = ''sberbank-ai/sbert_large_nlu_ru'', TOP_N_MAX = 100\<rparr>"

subsection \<open>External capabilities\<close>

text \<open>
  What a constructor raises, with the text \<open>str\<close> gives for it: an instance of class
  \<open>Exception\<close>, or an exception outside that class (\<open>SystemExit\<close>,
  \<open>KeyboardInterrupt\<close>, \<open>asyncio.CancelledError\<close>), which \<open>except Exception\<close>
  does not catch.
\<close>

datatype exn = Exception string | BaseException string

type_synonym candidate = "string \<times> real"

text \<open>A call of \<open>extract_keywords\<close>: the document, the n-gram range, \<open>top_n\<close>.\<close>

type_synonym extract_call = "string \<times> (int \<times> int) \<times> int"

text \<open>A \<open>KeyBERT\<close> object is its method \<open>extract_keywords\<close>, which may raise.\<close>

type_synonym kw_model_t = "string \<Rightarrow> int \<times> int \<Rightarrow> int \<Rightarrow> string + candidate list"

text \<open>A \<open>SnowballStemmer\<close> object is its method \<open>stem\<close>.\<close>

type_synonym stemmer_t = "string \<Rightarrow> string"

record 'e libs =
  SentenceTransformer :: "string \<Rightarrow> exn + 'e"
  KeyBERT :: "'e option \<Rightarrow> exn + kw_model_t"
  SnowballStemmer :: "string \<Rightarrow> exn + stemmer_t"

subsection \<open>Process state (lines 38--41)\<close>

text \<open>The values stored in \<open>_progress\<close>: strings, integers, and the error dictionary.\<close>

datatype pval = PStr string | PInt int | PDict "(string \<times> string) list"

text \<open>
  The startup coroutine is modelled statement by statement; the program counter names
  the statement that runs next. \<open>Finished\<close>: the coroutine has returned. \<open>Aborted\<close>: it
  has ended by an exception that it did not catch.
\<close>

datatype pc =
    Set_loading_embedder
  | Load_embedder
  | Set_loading_kw_model
  | Load_kw_model
  | Set_loading_stemmer
  | Load_stemmer
  | Set_ready
  | Finished
  | Aborted

record 'e state =
  embedder_g :: "'e option"
  kw_model_g :: "kw_model_t option"
  stemmer_g :: "stemmer_t option"
  progress_g :: "string \<rightharpoonup> pval"
  startup_pc :: pc

definition init_state :: "'e state" where
  "init_state =
     \<lparr>embedder_g = None, kw_model_g = None, stemmer_g = None,
      progress_g = [''status'' \<mapsto> PStr ''not_started'', ''percent'' \<mapsto> PInt 0],
      startup_pc = Set_loading_embedder\<rparr>"

subsection \<open>Startup (lines 82--106)\<close>

text \<open>\<open>_progress.update(status=s, percent=p)\<close>.\<close>

definition update_progress :: "string \<Rightarrow> int \<Rightarrow> 'e state \<Rightarrow> 'e state" where
  "update_progress s p st =
     st\<lparr>progress_g := (progress_g st)(''status'' \<mapsto> PStr s, ''percent'' \<mapsto> PInt p)\<rparr>"

text \<open>The \<open>except Exception\<close> branch (lines 104--106); the coroutine then ends.\<close>

definition on_exception :: "string \<Rightarrow> 'e state \<Rightarrow> 'e state" where
  "on_exception exc st =
     st\<lparr>progress_g := (progress_g st)(''status'' \<mapsto> PStr ''error'', ''percent'' \<mapsto> PInt 0,
                                     ''details'' \<mapsto> PDict [(''error'', exc)]),
        startup_pc := Finished\<rparr>"

text \<open>
  One statement of \<open>startup_event\<close>; \<open>None\<close> when the coroutine has ended. A raise
  of class \<open>Exception\<close> inside the \<open>try\<close> goes to the \<open>except\<close> branch; any other
  raise leaves the coroutine, and \<open>_progress\<close> stays as the last update left it.
\<close>

definition startup_step :: "config \<Rightarrow> 'e libs \<Rightarrow> 'e state \<Rightarrow> 'e state option" where
  "startup_step C L st =
     (case startup_pc st of
        Set_loading_embedder \<Rightarrow>
          Some ((update_progress ''loading_embedder'' 10 st)\<lparr>startup_pc := Load_embedder\<rparr>)
      | Load_embedder \<Rightarrow>
          (case SentenceTransformer L (MODEL_NAME C) of
             Inl (Exception exc) \<Rightarrow> Some (on_exception exc st)
           | Inl (BaseException exc) \<Rightarrow> Some (st\<lparr>startup_pc := Aborted\<rparr>)
           | Inr e \<Rightarrow> Some (st\<lparr>embedder_g := Some e, startup_pc := Set_loading_kw_model\<rparr>))
      | Set_loading_kw_model \<Rightarrow>
          Some ((update_progress ''loading_kw_model'' 50 st)\<lparr>startup_pc := Load_kw_model\<rparr>)
      | Load_kw_model \<Rightarrow>
          (case KeyBERT L (embedder_g st) of
             Inl (Exception exc) \<Rightarrow> Some (on_exception exc st)
           | Inl (BaseException exc) \<Rightarrow> Some (st\<lparr>startup_pc := Aborted\<rparr>)
           | Inr k \<Rightarrow> Some (st\<lparr>kw_model_g := Some k, startup_pc := Set_loading_stemmer\<rparr>))
      | Set_loading_stemmer \<Rightarrow>
          Some ((update_progress ''loading_stemmer'' 80 st)\<lparr>startup_pc := Load_stemmer\<rparr>)
      | Load_stemmer \<Rightarrow>
          (case SnowballStemmer L ''russian'' of
             Inl (Exception exc) \<Rightarrow> Some (on_exception exc st)
           | Inl (BaseException exc) \<Rightarrow> Some (st\<lparr>startup_pc := Aborted\<rparr>)
           | Inr s \<Rightarrow> Some (st\<lparr>stemmer_g := Some s, startup_pc := Set_ready\<rparr>))
      | Set_ready \<Rightarrow>
          Some ((update_progress ''ready'' 100 st)\<lparr>startup_pc := Finished\<rparr>)
      | Finished \<Rightarrow> None
      | Aborted \<Rightarrow> None)"

text \<open>How many statements are still ahead, at most.\<close>

fun pc_left :: "pc \<Rightarrow> nat" where
  "pc_left Set_loading_embedder = 7"
| "pc_left Load_embedder = 6"
| "pc_left Set_loading_kw_model = 5"
| "pc_left Load_kw_model = 4"
| "pc_left Set_loading_stemmer = 3"
| "pc_left Load_stemmer = 2"
| "pc_left Set_ready = 1"
| "pc_left Finished = 0"
| "pc_left Aborted = 0"

lemma startup_step_decreases:
  "startup_step C L st = Some st' \<Longrightarrow> pc_left (startup_pc st') < pc_left (startup_pc st)"
  by (auto simp: startup_step_def update_progress_def on_exception_def
           split: pc.splits sum.splits exn.splits)

text \<open>The whole coroutine: statements run until it ends.\<close>

function startup_event :: "config \<Rightarrow> 'e libs \<Rightarrow> 'e state \<Rightarrow> 'e state" where
  "startup_event C L st =
     (case startup_step C L st of None \<Rightarrow> st | Some st' \<Rightarrow> startup_event C L st')"
  by pat_completeness auto
termination
  by (relation "measure (\<lambda>(C, L, st). pc_left (startup_pc st))")
     (auto dest: startup_step_decreases)

subsection \<open>HTTP errors\<close>

text \<open>
  \<open>HTTPException\<close> carries its status code and detail. A body that fails the
  \<open>StemRequest\<close> schema is answered by the framework with 422; an exception that
  escapes a handler with 500.
\<close>

datatype http_error =
    HTTPException int string
  | RequestValidationError
  | Unhandled string




subsection \<open>The request schema (lines 47--56)\<close>

text \<open>
  The decoded JSON object of a request: each field is present (\<open>Some\<close>) or absent.
\<close>

record body =
  body_doc :: "string option"
  body_top_n :: "int option"
  body_min_ngram :: "int option"
  body_max_ngram :: "int option"

record StemRequest =
  doc :: string
  top_n :: int
  min_ngram :: int
  max_ngram :: int

text \<open>
  Building a \<open>StemRequest\<close> from the body. \<open>doc\<close> is required. The bounds \<open>ge\<close> and
  \<open>le\<close> of a field are checked on a value the client supplies; an absent field takes
  its default, which the schema does not check against the bounds.
\<close>

definition parse_StemRequest :: "config \<Rightarrow> body \<Rightarrow> http_error + StemRequest" where
  "parse_StemRequest C b =
     (case body_doc b of
        None \<Rightarrow> Inl RequestValidationError
      | Some d \<Rightarrow>
          if (case body_top_n b of None \<Rightarrow> False | Some n \<Rightarrow> \<not> (1 \<le> n \<and> n \<le> TOP_N_MAX C))
          then Inl RequestValidationError
          else if (case body_min_ngram b of None \<Rightarrow> False | Some m \<Rightarrow> \<not> 1 \<le> m)
          then Inl RequestValidationError
          else if (case body_max_ngram b of None \<Rightarrow> False | Some m \<Rightarrow> \<not> 1 \<le> m)
          then Inl RequestValidationError
          else Inr \<lparr>doc = d,
                    top_n = (case body_top_n b of None \<Rightarrow> 10 | Some n \<Rightarrow> n),
                    min_ngram = (case body_min_ngram b of None \<Rightarrow> 1 | Some m \<Rightarrow> m),
                    max_ngram = (case body_max_ngram b of None \<Rightarrow> 1 | Some m \<Rightarrow> m)\<rparr>)"

subsection \<open>The readiness gate (lines 112--117)\<close>

definition get_models ::
  "'e state \<Rightarrow> http_error + (kw_model_t option \<times> stemmer_t option)" where
  "get_models st =
     (if progress_g st ''status'' \<noteq> Some (PStr ''ready'')
      then Inl (HTTPException 503 ''Models are loading, please try again later.'')
      else Inr (kw_model_g st, stemmer_g st))"

subsection \<open>\<open>/status\<close> and \<open>/health\<close> (lines 123--129, 158--160)\<close>

record StatusResponse =
  status_r :: string
  percent_r :: int
  details_r :: "string \<rightharpoonup> pval"

text \<open>
  \<open>_progress["status"]\<close> and \<open>_progress["percent"]\<close> raise \<open>KeyError\<close> on a missing
  key, and \<open>StatusResponse\<close> wants a string and an integer; either failure escapes
  the handler.
\<close>

definition status :: "'e state \<Rightarrow> http_error + StatusResponse" where
  "status st =
     (case progress_g st ''status'' of
        None \<Rightarrow> Inl (Unhandled ''KeyError'')
      | Some s \<Rightarrow>
          (case progress_g st ''percent'' of
             None \<Rightarrow> Inl (Unhandled ''KeyError'')
           | Some p \<Rightarrow>
               (case (s, p) of
                  (PStr sv, PInt pv) \<Rightarrow>
                    Inr \<lparr>status_r = sv, percent_r = pv,
                         details_r = (\<lambda>k. if k \<in> set [''status'', ''percent''] then None
                                           else progress_g st k)\<rparr>
                | _ \<Rightarrow> Inl (Unhandled ''ValidationError''))))"


subsection \<open>\<open>/extract\<close> (lines 132--155)\<close>

text \<open>
  The loop of lines 146--154, with \<open>seen\<close> and \<open>results\<close> as accumulators. The length
  test follows the membership test in every iteration, whether or not the stem was new.
\<close>

fun stems_loop ::
  "stemmer_t \<Rightarrow> int \<Rightarrow> candidate list \<Rightarrow> string set \<Rightarrow> candidate list \<Rightarrow> candidate list" where
  "stems_loop stem n [] seen results = results"
| "stems_loop stem n ((word, score) # raw) seen results =
     (let s = stem word;
          seen' = (if s \<notin> seen then insert s seen else seen);
          results' = (if s \<notin> seen then results @ [(s, score)] else results)
      in if n \<le> int (length results') then results'
         else stems_loop stem n raw seen' results')"

text \<open>
  The handler body. Besides the response it returns the calls it made to
  \<open>extract_keywords\<close>, in order. A model that is \<open>None\<close> raises \<open>AttributeError\<close> where
  its method is first called: the stemmer's only inside the loop.
\<close>

definition stems ::
  "StemRequest \<Rightarrow> kw_model_t option \<times> stemmer_t option \<Rightarrow>
   extract_call list \<times> (http_error + candidate list)" where
  "stems request models =
     (if min_ngram request > max_ngram request
      then ([], Inl (HTTPException 400 ''min_ngram must be <= max_ngram''))
      else
        (case fst models of
           None \<Rightarrow> ([], Inl (Unhandled ''AttributeError''))
         | Some kw \<Rightarrow>
             (let call = (doc request, (min_ngram request, max_ngram request),
                          top_n request * 2)
              in case kw (doc request) (min_ngram request, max_ngram request)
                        (top_n request * 2) of
                   Inl exc \<Rightarrow> ([call], Inl (Unhandled exc))
                 | Inr raw \<Rightarrow>
                     (case snd models of
                        None \<Rightarrow>
                          if raw = [] then ([call], Inr [])
                          else ([call], Inl (Unhandled ''AttributeError''))
                      | Some stem \<Rightarrow>
                          ([call], Inr (stems_loop stem (top_n request) raw {} []))))))"

text \<open>
  The route on a body that has been decoded: the dependency \<open>get_models\<close> is resolved
  first, then the body is checked against the schema, then the handler body runs.
\<close>

definition extract_endpoint ::
  "config \<Rightarrow> 'e state \<Rightarrow> body \<Rightarrow> extract_call list \<times> (http_error + candidate list)" where
  "extract_endpoint C st b =
     (case get_models st of
        Inl e \<Rightarrow> ([], Inl e)
      | Inr models \<Rightarrow>
          (case parse_StemRequest C b of
             Inl e \<Rightarrow> ([], Inl e)
           | Inr request \<Rightarrow> stems request models))"



subsection \<open>Reference definitions for the claims\<close>

text \<open>
  Keeping the first occurrence of every key of an association list, in the list's
  order: the wording of the specification for the deduplication.
\<close>

fun first_occurrences :: "('k \<times> 'v) list \<Rightarrow> ('k \<times> 'v) list" where
  "first_occurrences [] = []"
| "first_occurrences (p # ps) = p # first_occurrences (filter (\<lambda>q. fst q \<noteq> fst p) ps)"

text \<open>The candidates with every phrase replaced by its stem.\<close>

definition stemmed :: "stemmer_t \<Rightarrow> candidate list \<Rightarrow> candidate list" where
  "stemmed stem raw = map (\<lambda>(word, score). (stem word, score)) raw"

text \<open>The values of a request's fields after the defaults are filled in.\<close>

definition eff_top_n :: "body \<Rightarrow> int" where
  "eff_top_n b = (case body_top_n b of None \<Rightarrow> 10 | Some n \<Rightarrow> n)"

definition eff_min_ngram :: "body \<Rightarrow> int" where
  "eff_min_ngram b = (case body_min_ngram b of None \<Rightarrow> 1 | Some m \<Rightarrow> m)"

definition eff_max_ngram :: "body \<Rightarrow> int" where
  "eff_max_ngram b = (case body_max_ngram b of None \<Rightarrow> 1 | Some m \<Rightarrow> m)"

text \<open>The readiness view of the state: status and percent as \<open>/status\<close> reads them.\<close>

definition readiness :: "'e state \<Rightarrow> pval option \<times> pval option" where
  "readiness st = (progress_g st ''status'', progress_g st ''percent'')"

definition is_ready :: "'e state \<Rightarrow> bool" where
  "is_ready st \<longleftrightarrow> progress_g st ''status'' = Some (PStr ''ready'')"

text \<open>The listed order of the readiness states, each with its percent.\<close>

definition stages :: "(string \<times> int) list" where
  "stages = [(''not_started'', 0), (''loading_embedder'', 10), (''loading_kw_model'', 50),
             (''loading_stemmer'', 80), (''ready'', 100)]"

definition stage_view :: "string \<times> int \<Rightarrow> pval option \<times> pval option" where
  "stage_view sp = (Some (PStr (fst sp)), Some (PInt (snd sp)))"

text \<open>The states the process can be in: those the startup statements reach.\<close>

inductive reachable :: "config \<Rightarrow> 'e libs \<Rightarrow> 'e state \<Rightarrow> bool" for C L where
  reachable_init: "reachable C L init_state"
| reachable_step: "reachable C L st \<Longrightarrow> startup_step C L st = Some st' \<Longrightarrow> reachable C L st'"

text \<open>What holds of the state at each statement of the startup coroutine.\<close>

definition startup_inv :: "'e state \<Rightarrow> bool" where
  "startup_inv st \<longleftrightarrow>
     (case startup_pc st of
        Set_loading_embedder \<Rightarrow> readiness st = stage_view (''not_started'', 0)
      | Load_embedder \<Rightarrow> readiness st = stage_view (''loading_embedder'', 10)
      | Set_loading_kw_model \<Rightarrow> readiness st = stage_view (''loading_embedder'', 10)
      | Load_kw_model \<Rightarrow> readiness st = stage_view (''loading_kw_model'', 50)
      | Set_loading_stemmer \<Rightarrow>
          readiness st = stage_view (''loading_kw_model'', 50) \<and> kw_model_g st \<noteq> None
      | Load_stemmer \<Rightarrow>
          readiness st = stage_view (''loading_stemmer'', 80) \<and> kw_model_g st \<noteq> None
      | Set_ready \<Rightarrow>
          readiness st = stage_view (''loading_stemmer'', 80) \<and> kw_model_g st \<noteq> None
          \<and> stemmer_g st \<noteq> None
      | Finished \<Rightarrow>
          readiness st = stage_view (''ready'', 100) \<and> kw_model_g st \<noteq> None
          \<and> stemmer_g st \<noteq> None
          \<or> readiness st = stage_view (''error'', 0)
      | Aborted \<Rightarrow>
          readiness st = stage_view (''loading_embedder'', 10)
          \<or> readiness st = stage_view (''loading_kw_model'', 50)
          \<or> readiness st = stage_view (''loading_stemmer'', 80))"

text \<open>The terminal readiness states.\<close>

definition is_terminal :: "'e state \<Rightarrow> bool" where
  "is_terminal st \<longleftrightarrow>
     progress_g st ''status'' = Some (PStr ''ready'')
     \<or> progress_g st ''status'' = Some (PStr ''error'')"

text \<open>One step forward in the listed order: from a stage to the stage listed next.\<close>

definition forward :: "pval option \<times> pval option \<Rightarrow> pval option \<times> pval option \<Rightarrow> bool" where
  "forward v v' \<longleftrightarrow>
     (v, v') \<in> set (zip (map stage_view stages) (map stage_view (tl stages)))"

subsection \<open>Demonstration inputs\<close>

text \<open>A stemmer that keeps three letters, an extractor with a
  fixed answer, and libraries that load them; requests; a configuration with a small
  \<open>TOP_N_MAX\<close>; libraries whose \<open>KeyBERT\<close> raises, inside and outside class
  \<open>Exception\<close>.\<close>

definition demo_raw :: "candidate list" where
  "demo_raw = [(''cats'', 3), (''cat'', 2), (''dogs'', 1)]"

definition demo_kw :: kw_model_t where
  "demo_kw d r k = Inr demo_raw"

definition demo_libs :: "unit libs" where
  "demo_libs = \<lparr>SentenceTransformer = (\<lambda>name. Inr ()),
                KeyBERT = (\<lambda>e. Inr demo_kw),
                SnowballStemmer = (\<lambda>lang. Inr (take 3))\<rparr>"

definition demo_ready :: "unit state" where
  "demo_ready =
     \<lparr>embedder_g = Some (), kw_model_g = Some demo_kw, stemmer_g = Some (take 3),
      progress_g = [''status'' \<mapsto> PStr ''ready'', ''percent'' \<mapsto> PInt 100],
      startup_pc = Finished\<rparr>"

definition demo_body :: body where
  "demo_body = \<lparr>body_doc = Some ''cats cat dogs'', body_top_n = Some 2,
                body_min_ngram = None, body_max_ngram = None\<rparr>"


definition demo_body5 :: body where
  "demo_body5 = \<lparr>body_doc = Some ''cats cat dogs'', body_top_n = Some 5,
                 body_min_ngram = None, body_max_ngram = None\<rparr>"

definition demo_body_default :: body where
  "demo_body_default = \<lparr>body_doc = Some ''cats cat dogs'', body_top_n = None,
                        body_min_ngram = None, body_max_ngram = None\<rparr>"

definition small_config :: config where
  "small_config = \<lparr>MODEL_NAME = ''sberbank-ai/sbert_large_nlu_ru'', TOP_N_MAX = 5\<rparr>"


definition failing_libs :: "unit libs" where
  "failing_libs = \<lparr>SentenceTransformer = (\<lambda>name. Inr ()),
                   KeyBERT = (\<lambda>e. Inl (Exception ''out of memory'')),
                   SnowballStemmer = (\<lambda>lang. Inr (take 3))\<rparr>"


definition demo_loading :: "unit state" where
  "demo_loading =
     \<lparr>embedder_g = None, kw_model_g = None, stemmer_g = None,
      progress_g = [''status'' \<mapsto> PStr ''loading_embedder'', ''percent'' \<mapsto> PInt 10],
      startup_pc = Load_embedder\<rparr>"

section \<open>Deduplication by stem\<close>

lemma first_occurrences_subset: "set (first_occurrences xs) \<subseteq> set xs"
  by (induction xs rule: first_occurrences.induct) auto

lemma first_occurrences_keys: "fst ` set (first_occurrences xs) = fst ` set xs"
proof (induction xs rule: first_occurrences.induct)
  case 1
  show ?case by simp
next
  case (2 p ps)
  have "fst ` set (filter (\<lambda>q. fst q \<noteq> fst p) ps) = fst ` set ps - {fst p}"
    by auto
  with 2 show ?case by auto
qed

lemma first_occurrences_distinct: "distinct (map fst (first_occurrences xs))"
proof (induction xs rule: first_occurrences.induct)
  case 1
  show ?case by simp
next
  case (2 p ps)
  have "fst p \<notin> fst ` set (first_occurrences (filter (\<lambda>q. fst q \<noteq> fst p) ps))"
    using first_occurrences_subset [of "filter (\<lambda>q. fst q \<noteq> fst p) ps"] by auto
  with 2 show ?case by simp
qed

lemma map_of_filter_neq:
  "k \<noteq> a \<Longrightarrow> map_of (filter (\<lambda>q. fst q \<noteq> a) ps) k = map_of ps k"
  by (induction ps) auto

lemma first_occurrences_map_of: "map_of (first_occurrences xs) k = map_of xs k"
proof (induction xs rule: first_occurrences.induct)
  case 1
  show ?case by simp
next
  case (2 p ps)
  show ?case
  proof (cases "k = fst p")
    case True
    then show ?thesis by (cases p) simp
  next
    case False
    with 2 show ?thesis by (cases p) (simp add: map_of_filter_neq)
  qed
qed

lemma first_occurrences_sorted:
  "sorted_wrt P (map snd xs) \<Longrightarrow> sorted_wrt P (map snd (first_occurrences xs))"
proof (induction xs rule: first_occurrences.induct)
  case 1
  show ?case by simp
next
  case (2 p ps)
  let ?f = "filter (\<lambda>q. fst q \<noteq> fst p) ps"
  from "2.prems" have tl: "sorted_wrt P (map snd ps)" and hd: "\<forall>q \<in> set ps. P (snd p) (snd q)"
    by auto
  from tl have "sorted_wrt P (map snd ?f)"
    by (simp add: sorted_wrt_map sorted_wrt_filter)
  then have "sorted_wrt P (map snd (first_occurrences ?f))" by (rule "2.IH")
  moreover have "\<forall>q \<in> set (first_occurrences ?f). P (snd p) (snd q)"
    using hd first_occurrences_subset [of ?f] by auto
  ultimately show ?case by simp
qed

lemma first_occurrences_length: "length (first_occurrences xs) = card (fst ` set xs)"
proof -
  have "length (first_occurrences xs) = length (map fst (first_occurrences xs))" by simp
  also have "\<dots> = card (set (map fst (first_occurrences xs)))"
    using first_occurrences_distinct [of xs] by (simp only: distinct_card)
  also have "\<dots> = card (fst ` set xs)" by (simp add: first_occurrences_keys)
  finally show ?thesis .
qed

lemma stems_loop_acc:
  "int (length results) < n \<Longrightarrow>
   stems_loop stem n raw seen results =
     results @ take (nat n - length results)
                 (first_occurrences (filter (\<lambda>q. fst q \<notin> seen) (stemmed stem raw)))"
proof (induction raw arbitrary: seen results)
  case Nil
  show ?case by (simp add: stemmed_def)
next
  case (Cons c raw)
  obtain word score where c: "c = (word, score)" by (cases c)
  show ?case
  proof (cases "stem word \<in> seen")
    case True
    with Cons c show ?thesis by (simp add: stemmed_def Let_def)
  next
    case False
    show ?thesis
    proof (cases "n \<le> int (length results) + 1")
      case True
      with Cons.prems have "nat n - length results = 1" by linarith
      with True False c show ?thesis by (simp add: stemmed_def Let_def)
    next
      case False2: False
      then have lt: "int (length (results @ [(stem word, score)])) < n" by simp
      have "nat n - length results = Suc (nat n - length (results @ [(stem word, score)]))"
        using False2 by (simp; linarith)
      with False False2 c Cons.IH [OF lt, of "insert (stem word) seen"] show ?thesis
        by (simp add: stemmed_def Let_def conj_commute)
    qed
  qed
qed

lemma stems_loop_top:
  "1 \<le> n \<Longrightarrow> stems_loop stem n raw {} [] = take (nat n) (first_occurrences (stemmed stem raw))"
  using stems_loop_acc [of "[]" n stem raw "{}"] by simp

lemma stems_loop_set:
  assumes "1 \<le> n" and "(s, score) \<in> set (stems_loop stem n raw {} [])"
  shows "map_of (stemmed stem raw) s = Some score"
proof -
  from assms have "(s, score) \<in> set (first_occurrences (stemmed stem raw))"
    by (auto simp: stems_loop_top dest: in_set_takeD)
  then have "map_of (first_occurrences (stemmed stem raw)) s = Some score"
    using first_occurrences_distinct [of "stemmed stem raw"] by simp
  then show ?thesis by (simp add: first_occurrences_map_of)
qed

lemma demo_first_occurrences:
  "first_occurrences (stemmed (take 3) demo_raw) = [(''cat'', 3), (''dog'', 1)]"
  by (simp add: stemmed_def demo_raw_def)

text \<open>
  C4. With \<open>top_n\<close> at least 1 (as it is whenever the handler runs), the loop returns
  the first \<open>top_n\<close> entries of the stemmed candidates with only the first occurrence of
  every stem kept, in the extractor's order. So the stems are distinct, each pair
  carries the score of the first candidate with that stem (what \<open>map_of\<close> finds), and
  the loop emits \<open>top_n\<close> pairs or, when there are fewer distinct stems, all of them.
\<close>

theorem stems_loop_first_occurrences:
  assumes "1 \<le> n"
  shows "stems_loop stem n raw {} [] = take (nat n) (first_occurrences (stemmed stem raw))
    \<and> distinct (map fst (stems_loop stem n raw {} []))
    \<and> (\<forall>(s, score) \<in> set (stems_loop stem n raw {} []).
          map_of (stemmed stem raw) s = Some score)
    \<and> length (stems_loop stem n raw {} []) = min (nat n) (card (fst ` set (stemmed stem raw)))"
proof (intro conjI)
  show eq: "stems_loop stem n raw {} [] = take (nat n) (first_occurrences (stemmed stem raw))"
    using assms by (rule stems_loop_top)
  show "distinct (map fst (stems_loop stem n raw {} []))"
    unfolding eq take_map [symmetric]
    by (rule distinct_take) (rule first_occurrences_distinct)
  show "\<forall>(s, score) \<in> set (stems_loop stem n raw {} []).
          map_of (stemmed stem raw) s = Some score"
    using stems_loop_set [OF assms] by blast
  show "length (stems_loop stem n raw {} []) = min (nat n) (card (fst ` set (stemmed stem raw)))"
    unfolding eq by (simp add: first_occurrences_length min.commute)
qed

theorem stems_loop_first_occurrences_witness:
  "(1::int) \<le> 2
   \<and> stems_loop (take 3) 2 demo_raw {} [] = [(''cat'', 3), (''dog'', 1)]
   \<and> map_of (stemmed (take 3) demo_raw) ''cat'' = Some 3"
  using stems_loop_first_occurrences [of 2 "take 3" demo_raw]
  by (simp add: demo_first_occurrences) (simp add: stemmed_def demo_raw_def)

section \<open>The \<open>/extract\<close> route\<close>

lemma parse_StemRequest_Inr:
  assumes "parse_StemRequest C b = Inr r"
  shows "body_doc b = Some (doc r)" "top_n r = eff_top_n b"
    "min_ngram r = eff_min_ngram b" "max_ngram r = eff_max_ngram b"
    "1 \<le> top_n r" "1 \<le> min_ngram r" "1 \<le> max_ngram r"
  using assms
  by (auto simp: parse_StemRequest_def eff_top_n_def eff_min_ngram_def eff_max_ngram_def
           split: option.splits if_splits)


lemma get_models_not_ready:
  "\<not> is_ready st \<Longrightarrow>
   get_models st = Inl (HTTPException 503 ''Models are loading, please try again later.'')"
  by (simp add: get_models_def is_ready_def)

lemma get_models_ready:
  "is_ready st \<Longrightarrow> get_models st = Inr (kw_model_g st, stemmer_g st)"
  by (simp add: get_models_def is_ready_def)

lemma extract_endpoint_not_ready:
  "\<not> is_ready st \<Longrightarrow>
   extract_endpoint C st b =
     ([], Inl (HTTPException 503 ''Models are loading, please try again later.''))"
  by (simp add: extract_endpoint_def get_models_not_ready)


lemma extract_endpoint_ready:
  "is_ready st \<Longrightarrow>
   extract_endpoint C st b =
     (case parse_StemRequest C b of
        Inl e \<Rightarrow> ([], Inl e)
      | Inr request \<Rightarrow> stems request (kw_model_g st, stemmer_g st))"
  by (simp add: extract_endpoint_def get_models_ready)

lemma stems_Inr:
  assumes "snd (stems r (kwo, so)) = Inr results"
  shows "min_ngram r \<le> max_ngram r \<and>
    (\<exists>kw raw. kwo = Some kw \<and> kw (doc r) (min_ngram r, max_ngram r) (top_n r * 2) = Inr raw \<and>
       (case so of None \<Rightarrow> raw = [] \<and> results = []
        | Some stem \<Rightarrow> results = stems_loop stem (top_n r) raw {} []))"
  using assms
  by (auto simp: stems_def Let_def split: if_splits option.splits sum.splits)

lemma demo_ready_is_ready: "is_ready demo_ready"
  by (simp add: is_ready_def demo_ready_def)

lemma demo_parse:
  "parse_StemRequest default_config demo_body =
     Inr \<lparr>doc = ''cats cat dogs'', top_n = 2, min_ngram = 1, max_ngram = 1\<rparr>"
  by (simp add: parse_StemRequest_def default_config_def demo_body_def)

lemma demo_loop: "stems_loop (take 3) 2 demo_raw {} [] = [(''cat'', 3), (''dog'', 1)]"
  by (simp add: demo_raw_def)

lemma demo_extract:
  "extract_endpoint default_config demo_ready demo_body =
     ([(''cats cat dogs'', (1, 1), 4)], Inr [(''cat'', 3), (''dog'', 1)])"
  by (simp add: extract_endpoint_ready demo_ready_is_ready demo_parse stems_def demo_loop)
     (simp add: demo_ready_def demo_kw_def demo_loop)

text \<open>
  C1. A request made while the status is \<open>ready\<close> that is answered with a list of
  stems: the list has at most \<open>top_n\<close> entries (the supplied value, or 10), its stems are
  pairwise distinct, and its scores are in non-increasing order, provided every list
  the extractor returns is in non-increasing order of score.
\<close>

theorem extract_at_most_top_n_distinct_sorted:
  assumes ready: "is_ready st"
    and desc: "\<forall>kw d r k raw. kw_model_g st = Some kw \<longrightarrow> kw d r k = Inr raw \<longrightarrow>
                 sorted_wrt (\<ge>) (map snd raw)"
    and ok: "snd (extract_endpoint C st b) = Inr results"
  shows "int (length results) \<le> eff_top_n b
    \<and> distinct (map fst results)
    \<and> sorted_wrt (\<ge>) (map snd results)"
proof -
  from ok ready obtain r where p: "parse_StemRequest C b = Inr r"
    and s: "snd (stems r (kw_model_g st, stemmer_g st)) = Inr results"
    by (auto simp: extract_endpoint_ready split: sum.splits)
  from parse_StemRequest_Inr [OF p] have n: "1 \<le> top_n r" "top_n r = eff_top_n b" by simp_all
  from stems_Inr [OF s] obtain kw raw where kw: "kw_model_g st = Some kw"
    and raw: "kw (doc r) (min_ngram r, max_ngram r) (top_n r * 2) = Inr raw"
    and res: "case stemmer_g st of None \<Rightarrow> raw = [] \<and> results = []
              | Some stem \<Rightarrow> results = stems_loop stem (top_n r) raw {} []"
    by blast
  from desc kw raw have sorted_raw: "sorted_wrt (\<ge>) (map snd raw)" by blast
  show ?thesis
  proof (cases "stemmer_g st")
    case None
    with res n show ?thesis by simp
  next
    case (Some stem)
    with res n have eq: "results = take (nat (top_n r)) (first_occurrences (stemmed stem raw))"
      by (simp add: stems_loop_top)
    have "map snd (stemmed stem raw) = map snd raw"
      by (simp add: stemmed_def split_def)
    with sorted_raw have "sorted_wrt (\<ge>) (map snd (first_occurrences (stemmed stem raw)))"
      by (simp add: first_occurrences_sorted)
    then have "sorted_wrt (\<ge>) (map snd results)"
      unfolding eq take_map [symmetric] by (rule sorted_wrt_take)
    moreover have "distinct (map fst results)"
      unfolding eq take_map [symmetric]
      by (rule distinct_take) (rule first_occurrences_distinct)
    moreover have "int (length results) \<le> eff_top_n b"
      using n unfolding eq by simp
    ultimately show ?thesis by simp
  qed
qed

theorem extract_at_most_top_n_distinct_sorted_witness:
  "is_ready demo_ready
   \<and> snd (extract_endpoint default_config demo_ready demo_body) = Inr [(''cat'', 3), (''dog'', 1)]
   \<and> int (length [(''cat'', 3::real), (''dog'', 1)]) \<le> eff_top_n demo_body
   \<and> distinct (map fst [(''cat'', 3::real), (''dog'', 1)])
   \<and> sorted_wrt (\<ge>) (map snd [(''cat'', 3::real), (''dog'', 1)])"
proof -
  have desc: "\<forall>kw d r k raw. kw_model_g demo_ready = Some kw \<longrightarrow> kw d r k = Inr raw \<longrightarrow>
                 sorted_wrt (\<ge>) (map snd raw)"
    by (auto simp: demo_ready_def demo_kw_def demo_raw_def)
  have ok: "snd (extract_endpoint default_config demo_ready demo_body) = Inr [(''cat'', 3), (''dog'', 1)]"
    by (simp add: demo_extract)
  from extract_at_most_top_n_distinct_sorted [OF demo_ready_is_ready desc ok] ok demo_ready_is_ready
  show ?thesis by blast
qed











section \<open>Startup and the readiness state\<close>

lemma startup_inv_init: "startup_inv init_state"
  by (simp add: startup_inv_def init_state_def readiness_def stage_view_def)

lemma startup_inv_step:
  "startup_inv st \<Longrightarrow> startup_step C L st = Some st' \<Longrightarrow> startup_inv st'"
  by (cases "startup_pc st")
     (auto simp: startup_inv_def startup_step_def update_progress_def on_exception_def
        readiness_def stage_view_def split: sum.splits exn.splits)

lemma reachable_inv: "reachable C L st \<Longrightarrow> startup_inv st"
  by (induction rule: reachable.induct) (auto intro: startup_inv_init startup_inv_step)

lemma reachable_ready_models:
  assumes "reachable C L st" and "is_ready st"
  shows "\<exists>kw stem. kw_model_g st = Some kw \<and> stemmer_g st = Some stem"
  using reachable_inv [OF assms(1)] assms(2)
  by (cases "startup_pc st")
     (auto simp: startup_inv_def is_ready_def readiness_def stage_view_def)

lemma reachable_startup_event:
  "reachable C L st \<Longrightarrow> reachable C L (startup_event C L st)"
proof (induction C L st rule: startup_event.induct)
  case (1 C L st)
  show ?case
  proof (cases "startup_step C L st")
    case None
    with "1.prems" show ?thesis by (simp add: startup_event.simps [of C L st])
  next
    case (Some st')
    with "1.prems" have "reachable C L st'" by (auto intro: reachable_step)
    with Some "1.IH" show ?thesis by (simp add: startup_event.simps [of C L st])
  qed
qed


section \<open>The extractor call and the bound on \<open>top_n\<close>\<close>

lemma demo_startup: "startup_event default_config demo_libs init_state = demo_ready"
  by (simp add: startup_step_def init_state_def update_progress_def demo_libs_def demo_ready_def)

lemma demo_ready_reachable: "reachable default_config demo_libs demo_ready"
  using reachable_startup_event [OF reachable_init, of default_config demo_libs]
  by (simp only: demo_startup)

text \<open>
  C5. In a state the process can reach, with status \<open>ready\<close>, a request that passes the
  schema and has \<open>min_ngram \<le> max_ngram\<close> makes exactly one call to the extractor:
  for \<open>top_n * 2\<close> candidates over the range \<open>(min_ngram, max_ngram)\<close> of the request's
  document. The response is the deduplication of that one answer, whatever its length;
  there is no second call.
\<close>

theorem extract_asks_twice_top_n_once:
  assumes "reachable C L st" and "is_ready st"
    and "parse_StemRequest C b = Inr r" and "min_ngram r \<le> max_ngram r"
  shows "\<exists>kw stem. kw_model_g st = Some kw \<and> stemmer_g st = Some stem
    \<and> fst (extract_endpoint C st b) =
        [(doc r, (min_ngram r, max_ngram r), top_n r * 2)]
    \<and> snd (extract_endpoint C st b) =
        (case kw (doc r) (min_ngram r, max_ngram r) (top_n r * 2) of
           Inl exc \<Rightarrow> Inl (Unhandled exc)
         | Inr raw \<Rightarrow> Inr (stems_loop stem (top_n r) raw {} []))"
proof -
  from reachable_ready_models [OF assms(1,2)] obtain kw stem
    where m: "kw_model_g st = Some kw" "stemmer_g st = Some stem" by blast
  with assms(2,3,4) have
    "fst (extract_endpoint C st b) = [(doc r, (min_ngram r, max_ngram r), top_n r * 2)]"
    "snd (extract_endpoint C st b) =
        (case kw (doc r) (min_ngram r, max_ngram r) (top_n r * 2) of
           Inl exc \<Rightarrow> Inl (Unhandled exc)
         | Inr raw \<Rightarrow> Inr (stems_loop stem (top_n r) raw {} []))"
    by (simp_all add: extract_endpoint_ready stems_def Let_def split: sum.splits)
  with m show ?thesis by blast
qed

lemma demo_parse5:
  "parse_StemRequest default_config demo_body5 =
     Inr \<lparr>doc = ''cats cat dogs'', top_n = 5, min_ngram = 1, max_ngram = 1\<rparr>"
  by (simp add: parse_StemRequest_def default_config_def demo_body5_def)

lemma demo_loop5: "stems_loop (take 3) 5 demo_raw {} [] = [(''cat'', 3), (''dog'', 1)]"
  by (simp add: demo_raw_def)

theorem extract_asks_twice_top_n_once_witness:
  "reachable default_config demo_libs demo_ready \<and> is_ready demo_ready
   \<and> parse_StemRequest default_config demo_body5 =
       Inr \<lparr>doc = ''cats cat dogs'', top_n = 5, min_ngram = 1, max_ngram = 1\<rparr>
   \<and> fst (extract_endpoint default_config demo_ready demo_body5) =
       [(''cats cat dogs'', (1, 1), 10)]
   \<and> snd (extract_endpoint default_config demo_ready demo_body5) =
       Inr [(''cat'', 3), (''dog'', 1)]"
proof -
  have le: "min_ngram \<lparr>doc = ''cats cat dogs'', top_n = 5, min_ngram = 1, max_ngram = 1\<rparr>
        \<le> max_ngram \<lparr>doc = ''cats cat dogs'', top_n = 5, min_ngram = 1, max_ngram = 1\<rparr>"
    by simp
  from extract_asks_twice_top_n_once [OF demo_ready_reachable demo_ready_is_ready demo_parse5 le]
  have "fst (extract_endpoint default_config demo_ready demo_body5) =
          [(''cats cat dogs'', (1, 1), 10)]"
    and "snd (extract_endpoint default_config demo_ready demo_body5) =
          Inr [(''cat'', 3), (''dog'', 1)]"
    by (auto simp: demo_ready_def demo_kw_def demo_loop5)
  with demo_ready_reachable demo_ready_is_ready demo_parse5 show ?thesis by blast
qed

text \<open>
  A \<open>top_n\<close> that the client supplies outside \<open>1..TOP_N_MAX\<close> fails the schema, and
  the route answers with an error without entering the handler body.
\<close>

lemma supplied_top_n_out_of_range:
  assumes "body_top_n b = Some n" and "n < 1 \<or> TOP_N_MAX C < n"
  shows "parse_StemRequest C b = Inl RequestValidationError"
    and "\<exists>e. extract_endpoint C st b = ([], Inl e)"
proof -
  show p: "parse_StemRequest C b = Inl RequestValidationError"
    using assms by (auto simp: parse_StemRequest_def split: option.splits)
  show "\<exists>e. extract_endpoint C st b = ([], Inl e)"
    by (cases "is_ready st") (simp_all add: extract_endpoint_ready extract_endpoint_not_ready p)
qed

text \<open>
  C8 fails on the code where \<open>TOP_N_MAX\<close> is configured below 10. With
  \<open>TOP_N_MAX = 5\<close> and a body without \<open>top_n\<close>, the schema fills in the default 10
  unchecked, and the handler body runs with \<open>top_n = 10\<close>: it asks the extractor for 20
  candidates.
\<close>

theorem default_top_n_above_TOP_N_MAX:
  "TOP_N_MAX small_config = 5
   \<and> body_top_n demo_body_default = None
   \<and> parse_StemRequest small_config demo_body_default =
       Inr \<lparr>doc = ''cats cat dogs'', top_n = 10, min_ngram = 1, max_ngram = 1\<rparr>
   \<and> extract_endpoint small_config demo_ready demo_body_default =
       ([(''cats cat dogs'', (1, 1), 20)], Inr [(''cat'', 3), (''dog'', 1)])"
proof -
  have p: "parse_StemRequest small_config demo_body_default =
       Inr \<lparr>doc = ''cats cat dogs'', top_n = 10, min_ngram = 1, max_ngram = 1\<rparr>"
    by (simp add: parse_StemRequest_def small_config_def demo_body_default_def)
  have l: "stems_loop (take 3) 10 demo_raw {} [] = [(''cat'', 3), (''dog'', 1)]"
    by (simp add: demo_raw_def)
  have "extract_endpoint small_config demo_ready demo_body_default =
       ([(''cats cat dogs'', (1, 1), 20)], Inr [(''cat'', 3), (''dog'', 1)])"
    by (simp add: extract_endpoint_ready demo_ready_is_ready p stems_def)
       (simp add: demo_ready_def demo_kw_def l)
  with p show ?thesis by (simp add: small_config_def demo_body_default_def)
qed

section \<open>Failure during startup\<close>









section \<open>The readiness state as a step relation\<close>

lemma forward_steps:
  "forward (stage_view (''not_started'', 0)) (stage_view (''loading_embedder'', 10))"
  "forward (stage_view (''loading_embedder'', 10)) (stage_view (''loading_kw_model'', 50))"
  "forward (stage_view (''loading_kw_model'', 50)) (stage_view (''loading_stemmer'', 80))"
  "forward (stage_view (''loading_stemmer'', 80)) (stage_view (''ready'', 100))"
  by (simp_all add: forward_def stages_def)

lemma set_step_readiness:
  assumes "readiness st = v"
  shows "readiness ((update_progress s p st)\<lparr>startup_pc := q\<rparr>) = stage_view (s, p)"
  by (simp add: readiness_def update_progress_def stage_view_def)

lemma load_step_readiness:
  "readiness (st\<lparr>startup_pc := q\<rparr>) = readiness st"
  "readiness (st\<lparr>embedder_g := e\<rparr>) = readiness st"
  "readiness (st\<lparr>kw_model_g := k\<rparr>) = readiness st"
  "readiness (st\<lparr>stemmer_g := m\<rparr>) = readiness st"
  by (simp_all add: readiness_def)

lemma on_exception_readiness:
  "readiness (on_exception exc st) = stage_view (''error'', 0)"
  "startup_step C L (on_exception exc st) = None"
  by (simp_all add: readiness_def on_exception_def stage_view_def startup_step_def)

lemma step_readiness:
  assumes "startup_inv st" and "startup_step C L st = Some st'"
  shows "readiness st' = readiness st
    \<or> forward (readiness st) (readiness st')
    \<or> readiness st' = stage_view (''error'', 0) \<and> startup_step C L st' = None"
proof (cases "startup_pc st")
  case Set_loading_embedder
  with assms have "readiness st = stage_view (''not_started'', 0)"
    and "st' = (update_progress ''loading_embedder'' 10 st)\<lparr>startup_pc := Load_embedder\<rparr>"
    by (simp_all add: startup_inv_def startup_step_def)
  then show ?thesis using forward_steps(1) by (simp add: set_step_readiness)
next
  case Load_embedder
  with assms(2) have "(\<exists>exc. st' = on_exception exc st) \<or> st' = st\<lparr>startup_pc := Aborted\<rparr>
      \<or> (\<exists>x. st' = st\<lparr>embedder_g := Some x, startup_pc := Set_loading_kw_model\<rparr>)"
    by (auto simp: startup_step_def split: sum.splits exn.splits)
  then show ?thesis
    by (auto simp: load_step_readiness on_exception_readiness)
next
  case Set_loading_kw_model
  with assms have "readiness st = stage_view (''loading_embedder'', 10)"
    and "st' = (update_progress ''loading_kw_model'' 50 st)\<lparr>startup_pc := Load_kw_model\<rparr>"
    by (simp_all add: startup_inv_def startup_step_def)
  then show ?thesis using forward_steps(2) by (simp add: set_step_readiness)
next
  case Load_kw_model
  with assms(2) have "(\<exists>exc. st' = on_exception exc st) \<or> st' = st\<lparr>startup_pc := Aborted\<rparr>
      \<or> (\<exists>x. st' = st\<lparr>kw_model_g := Some x, startup_pc := Set_loading_stemmer\<rparr>)"
    by (auto simp: startup_step_def split: sum.splits exn.splits)
  then show ?thesis
    by (auto simp: load_step_readiness on_exception_readiness)
next
  case Set_loading_stemmer
  with assms have "readiness st = stage_view (''loading_kw_model'', 50)"
    and "st' = (update_progress ''loading_stemmer'' 80 st)\<lparr>startup_pc := Load_stemmer\<rparr>"
    by (simp_all add: startup_inv_def startup_step_def)
  then show ?thesis using forward_steps(3) by (simp add: set_step_readiness)
next
  case Load_stemmer
  with assms(2) have "(\<exists>exc. st' = on_exception exc st) \<or> st' = st\<lparr>startup_pc := Aborted\<rparr>
      \<or> (\<exists>x. st' = st\<lparr>stemmer_g := Some x, startup_pc := Set_ready\<rparr>)"
    by (auto simp: startup_step_def split: sum.splits exn.splits)
  then show ?thesis
    by (auto simp: load_step_readiness on_exception_readiness)
next
  case Set_ready
  with assms have "readiness st = stage_view (''loading_stemmer'', 80)"
    and "st' = (update_progress ''ready'' 100 st)\<lparr>startup_pc := Finished\<rparr>"
    by (simp_all add: startup_inv_def startup_step_def)
  then show ?thesis using forward_steps(4) by (simp add: set_step_readiness)
next
  case Finished
  with assms(2) show ?thesis by (simp add: startup_step_def)
next
  case Aborted
  with assms(2) show ?thesis by (simp add: startup_step_def)
qed

lemma terminal_no_step:
  assumes "startup_inv st" and "is_terminal st"
  shows "startup_step C L st = None"
  using assms
  by (cases "startup_pc st")
     (auto simp: startup_inv_def is_terminal_def startup_step_def readiness_def stage_view_def)

lemma inv_listed:
  assumes "startup_inv st"
  shows "readiness st \<in> stage_view ` set stages \<or> readiness st = stage_view (''error'', 0)"
proof -
  have "stage_view ` set stages =
    {stage_view (''not_started'', 0), stage_view (''loading_embedder'', 10),
     stage_view (''loading_kw_model'', 50), stage_view (''loading_stemmer'', 80),
     stage_view (''ready'', 100)}"
    by (simp add: stages_def)
  with assms show ?thesis
    by (cases "startup_pc st") (simp_all add: startup_inv_def, blast+)
qed

text \<open>
  C7. In every state the startup coroutine reaches, the readiness (status, percent) is
  one of the five listed stages or \<open>error\<close> with percent 0. A statement of startup
  leaves it as it is, or moves it from one listed stage to the next (the percent not
  decreasing), or sets it to \<open>error\<close> with percent 0, after which no statement is left.
  Once the status is \<open>ready\<close> or \<open>error\<close> no statement of startup is left to run. The
  percents of the listed stages are in non-decreasing order.
\<close>

theorem readiness_moves_forward:
  assumes "reachable C L st"
  shows "(readiness st \<in> stage_view ` set stages \<or> readiness st = stage_view (''error'', 0))
    \<and> (\<forall>st'. startup_step C L st = Some st' \<longrightarrow>
          readiness st' = readiness st
          \<or> forward (readiness st) (readiness st')
          \<or> readiness st' = stage_view (''error'', 0) \<and> startup_step C L st' = None)
    \<and> (is_terminal st \<longrightarrow> startup_step C L st = None)
    \<and> sorted (map snd stages)"
proof -
  from assms have inv: "startup_inv st" by (rule reachable_inv)
  have "sorted (map snd stages)" by (simp add: stages_def)
  with inv_listed [OF inv] step_readiness [OF inv] terminal_no_step [OF inv]
  show ?thesis by blast
qed

lemma init_step: "startup_step default_config demo_libs init_state = Some demo_loading"
  by (simp add: startup_step_def init_state_def update_progress_def demo_loading_def)

theorem readiness_moves_forward_witness:
  "reachable default_config demo_libs (init_state :: unit state)
   \<and> startup_step default_config demo_libs init_state = Some demo_loading
   \<and> forward (readiness (init_state :: unit state)) (readiness demo_loading)
   \<and> reachable default_config demo_libs demo_ready \<and> is_terminal demo_ready
   \<and> startup_step default_config demo_libs demo_ready = None"
proof -
  have ne: "readiness demo_loading \<noteq> readiness (init_state :: unit state)"
    "readiness demo_loading \<noteq> stage_view (''error'', 0)"
    by (simp_all add: readiness_def demo_loading_def init_state_def stage_view_def)
  have t: "is_terminal demo_ready" by (simp add: is_terminal_def demo_ready_def)
  from readiness_moves_forward [OF reachable_init, of default_config demo_libs] init_step ne
  have "forward (readiness (init_state :: unit state)) (readiness demo_loading)" by blast
  moreover from readiness_moves_forward [OF demo_ready_reachable] t
  have "startup_step default_config demo_libs demo_ready = None" by blast
  ultimately show ?thesis using reachable_init init_step demo_ready_reachable t by blast
qed

text \<open>
  C10. In every state the startup coroutine reaches, \<open>_progress\<close> has the keys
  \<open>status\<close> and \<open>percent\<close>; a statement of startup never removes a key; and \<open>/status\<close>
  returns a response whose \<open>details\<close> has neither the key \<open>status\<close> nor the key
  \<open>percent\<close>.
\<close>

theorem progress_keys_and_status:
  assumes "reachable C L st"
  shows "progress_g st ''status'' \<noteq> None \<and> progress_g st ''percent'' \<noteq> None
    \<and> (\<forall>st'. startup_step C L st = Some st' \<longrightarrow> dom (progress_g st) \<subseteq> dom (progress_g st'))
    \<and> (\<exists>r. status st = Inr r \<and> details_r r ''status'' = None \<and> details_r r ''percent'' = None)"
proof -
  from assms have inv: "startup_inv st" by (rule reachable_inv)
  then obtain s p where sp: "progress_g st ''status'' = Some (PStr s)"
    "progress_g st ''percent'' = Some (PInt p)"
    by (cases "startup_pc st") (auto simp: startup_inv_def readiness_def stage_view_def)
  have "\<forall>st'. startup_step C L st = Some st' \<longrightarrow> dom (progress_g st) \<subseteq> dom (progress_g st')"
    by (cases "startup_pc st")
       (auto simp: startup_step_def update_progress_def on_exception_def
          split: sum.splits exn.splits)
  moreover have "\<exists>r. status st = Inr r \<and> details_r r ''status'' = None
      \<and> details_r r ''percent'' = None"
    using sp by (simp add: status_def)
  ultimately show ?thesis using sp by simp
qed

theorem progress_keys_and_status_witness:
  "reachable default_config failing_libs (startup_event default_config failing_libs init_state)
   \<and> (\<exists>r. status (startup_event default_config failing_libs init_state) = Inr r
        \<and> details_r r ''status'' = None \<and> details_r r ''percent'' = None)"
  using progress_keys_and_status [OF reachable_startup_event [OF reachable_init],
          of default_config failing_libs]
    reachable_startup_event [OF reachable_init, of default_config failing_libs]
  by blast

end
